theory Spec2Isabelle
  imports Main "HOL-Library.AList"
begin

section \<open>Python values\<close>

text \<open>
  The module \<^verbatim>\<open>flask_pydantic/openapi.py\<close> builds an OpenAPI document out of plain
  Python data: \<^verbatim>\<open>None\<close>, booleans, integers, strings, lists, tuples and dictionaries
  with string keys. A dictionary keeps its keys in insertion order, so it is an
  association list; \<open>PClass\<close> stands for a class object (the value of a handler's
  \<^verbatim>\<open>_openapi\<close> attribute), named by its qualified name.
\<close>

datatype pyval =
    PNone
  | PBool bool
  | PInt int
  | PStr string
  | PClass string
  | PList "pyval list"
  | PTuple "pyval list"
  | PDict "(string \<times> pyval) list"

type_synonym dict = "(string \<times> pyval) list"

text \<open>\<^verbatim>\<open>k in d\<close>, \<^verbatim>\<open>d[k] = v\<close>, \<^verbatim>\<open>d.pop(k)\<close> (for a key that is present) and
  \<^verbatim>\<open>d1.update(d2)\<close>. Assigning to a key that is present keeps its position, a new key
  goes to the end.\<close>

definition dict_contains :: "string \<Rightarrow> dict \<Rightarrow> bool" where
  "dict_contains k d = (map_of d k \<noteq> None)"

definition dict_setitem :: "dict \<Rightarrow> string \<Rightarrow> pyval \<Rightarrow> dict" where
  "dict_setitem d k v = AList.update k v d"

definition dict_pop :: "dict \<Rightarrow> string \<Rightarrow> pyval \<times> dict" where
  "dict_pop d k = (the (map_of d k), AList.delete k d)"

definition dict_update :: "dict \<Rightarrow> dict \<Rightarrow> dict" where
  "dict_update d1 d2 = fold (\<lambda>(k, v) d. dict_setitem d k v) d2 d1"

definition dict_keys :: "dict \<Rightarrow> string list" where
  "dict_keys d = map fst d"

text \<open>\<^verbatim>\<open>isinstance(v, dict)\<close>.\<close>

definition is_dict :: "pyval \<Rightarrow> bool" where
  "is_dict v = (case v of PDict m \<Rightarrow> True | _ \<Rightarrow> False)"

section \<open>Recursive merge\<close>

text \<open>
  \<^verbatim>\<open>
  def merge_dicts(d1, d2):
      for k, v in d1.items():
          if k in d2:
              v2 = d2.pop(k)
              if isinstance(v, dict):
                  if isinstance(v2, dict):
                      merge_dicts(v, v2)
                  else:
                      d1[k] = v2
              else:
                  d1[k] = v2
      d1.update(d2)
      return d1
  \<close>
  Both arguments are mutated, so the model returns the final state of both: the first
  component is \<^verbatim>\<open>d1\<close> after the call (the object the function returns), the second is
  \<^verbatim>\<open>d2\<close> after the call. \<open>merge_items\<close> is the \<^verbatim>\<open>for\<close> loop: its first argument is
  what is left of \<^verbatim>\<open>d1.items()\<close>, the other two are the current \<^verbatim>\<open>d1\<close> and \<^verbatim>\<open>d2\<close>.
  The recursive call mutates the object \<^verbatim>\<open>v\<close>, which is the value \<^verbatim>\<open>d1\<close> holds at \<^verbatim>\<open>k\<close>;
  the model stores the merged value there. The two arguments are values, that is trees:
  \<^verbatim>\<open>d1\<close> and \<^verbatim>\<open>d2\<close> are distinct objects that share no sub-dictionary.
\<close>

function merge_dicts :: "dict \<Rightarrow> dict \<Rightarrow> dict \<times> dict"
  and merge_items :: "dict \<Rightarrow> dict \<Rightarrow> dict \<Rightarrow> dict \<times> dict"
where
  "merge_dicts d1 d2 =
     (case merge_items d1 d1 d2 of (d1', d2') \<Rightarrow> (dict_update d1' d2', d2'))"
| "merge_items [] d1 d2 = (d1, d2)"
| "merge_items ((k, v) # items) d1 d2 =
     (if dict_contains k d2 then
        (case dict_pop d2 k of (v2, d2') \<Rightarrow>
           (case v of
              PDict m \<Rightarrow>
                (case v2 of
                   PDict m2 \<Rightarrow>
                     merge_items items (dict_setitem d1 k (PDict (fst (merge_dicts m m2)))) d2'
                 | _ \<Rightarrow> merge_items items (dict_setitem d1 k v2) d2')
            | _ \<Rightarrow> merge_items items (dict_setitem d1 k v2) d2'))
      else merge_items items d1 d2)"
  by pat_completeness auto
termination
  by (relation "measure (\<lambda>x. case x of
        Inl (d1, d2) \<Rightarrow> 2 * size_list (size_prod (\<lambda>_. 0) size) d1 + 1
      | Inr (items, d1, d2) \<Rightarrow> 2 * size_list (size_prod (\<lambda>_. 0) size) items)") auto

declare merge_dicts.simps [simp del]

section \<open>Route template parser\<close>

text \<open>
  \<^verbatim>\<open>
  RE_PARSE_RULE = re.compile(r"""
      (?P<static>[^<]*)                           # static rule data
      <
      (?:
          (?P<converter>[a-zA-Z_][a-zA-Z0-9_]*)   # converter name
          (?:\((?P<args>.*?)\))?                  # converter arguments
          \:                                      # variable delimiter
      )?
      (?P<variable>[a-zA-Z_][a-zA-Z0-9_]*)        # variable name
      >
      """, re.VERBOSE)
  \<close>
  The matcher below follows the expression piece by piece, in the order in which the
  backtracking engine tries the alternatives.
  \<^item> An identifier \<^verbatim>\<open>[a-zA-Z_][a-zA-Z0-9_]*\<close> is always followed in the expression by
    one of \<^verbatim>\<open>(\<close>, \<^verbatim>\<open>:\<close>, \<^verbatim>\<open>>\<close>, none of them an identifier character, so only the
    longest identifier can be continued: \<open>match_ident\<close> takes the longest one.
  \<^item> \<^verbatim>\<open>[^<]*\<close> is followed by \<^verbatim>\<open><\<close>, so only the whole run of characters up to the
    first \<^verbatim>\<open><\<close> can be continued.
  \<^item> \<^verbatim>\<open>.*?\<close> is lazy: \<open>match_args\<close> tries the shortest argument text first and extends
    it by one character (any but a newline) while the rest \<^verbatim>\<open>\):variable>\<close> fails.
  \<^item> The optional converter group is tried first; where it fails, the variable is
    matched right after \<^verbatim>\<open><\<close>.
\<close>

definition is_ident_start :: "char \<Rightarrow> bool" where
  "is_ident_start c =
     (c \<in> set ''abcdefghijklmnopqrstuvwxyzABCDEFGHIJKLMNOPQRSTUVWXYZ_'')"

definition is_ident_char :: "char \<Rightarrow> bool" where
  "is_ident_char c = (is_ident_start c \<or> c \<in> set ''0123456789'')"

definition match_ident :: "string \<Rightarrow> (string \<times> string) option" where
  "match_ident s =
     (case s of
        [] \<Rightarrow> None
      | c # cs \<Rightarrow>
          if is_ident_start c
          then Some (c # takeWhile is_ident_char cs, dropWhile is_ident_char cs)
          else None)"

text \<open>\<^verbatim>\<open>(?P<variable>[a-zA-Z_][a-zA-Z0-9_]*)>\<close>: the variable and what follows the match.\<close>

definition match_variable :: "string \<Rightarrow> (string \<times> string) option" where
  "match_variable s =
     (case match_ident s of
        None \<Rightarrow> None
      | Some (v, r) \<Rightarrow>
          (case r of
             [] \<Rightarrow> None
           | c # rest \<Rightarrow> if c = CHR ''>'' then Some (v, rest) else None))"

text \<open>\<^verbatim>\<open>\)\:(?P<variable>...)>\<close>: what has to follow the argument text.\<close>

definition match_args_tail :: "string \<Rightarrow> (string \<times> string) option" where
  "match_args_tail s =
     (case s of
        c1 # c2 # r \<Rightarrow>
          if c1 = CHR '')'' \<and> c2 = CHR '':'' then match_variable r else None
      | _ \<Rightarrow> None)"

text \<open>\<^verbatim>\<open>(?P<args>.*?)\<close> and the rest of the expression; \<open>acc\<close> is the argument text
  taken so far.\<close>

fun match_args :: "string \<Rightarrow> string \<Rightarrow> (string \<times> string \<times> string) option" where
  "match_args acc [] = None"
| "match_args acc (c # cs) =
     (case match_args_tail (c # cs) of
        Some (v, rest) \<Rightarrow> Some (acc, v, rest)
      | None \<Rightarrow> if c = CHR 0x0A then None else match_args (acc @ [c]) cs)"

text \<open>The converter group with the variable after it:
  \<^verbatim>\<open>(?P<converter>...)(?:\((?P<args>.*?)\))?\:(?P<variable>...)>\<close>.\<close>

definition match_converter_group ::
  "string \<Rightarrow> (string \<times> string option \<times> string \<times> string) option" where
  "match_converter_group s =
     (case match_ident s of
        None \<Rightarrow> None
      | Some (conv, r) \<Rightarrow>
          (case r of
             [] \<Rightarrow> None
           | c # r' \<Rightarrow>
               if c = CHR ''('' then
                 (case match_args [] r' of
                    Some (a, v, rest) \<Rightarrow> Some (conv, Some a, v, rest)
                  | None \<Rightarrow> None)
               else if c = CHR '':'' then
                 (case match_variable r' of
                    Some (v, rest) \<Rightarrow> Some (conv, None, v, rest)
                  | None \<Rightarrow> None)
               else None))"

text \<open>The result of \<^verbatim>\<open>RE_PARSE_RULE.match(rule, pos)\<close>: the groups of \<^verbatim>\<open>m.groupdict()\<close>, and
  \<open>m_rest\<close> for \<^verbatim>\<open>rule[m.end():]\<close>. The argument is \<^verbatim>\<open>rule[pos:]\<close>.\<close>

record rule_match =
  m_static :: string
  m_converter :: "string option"
  m_args :: "string option"
  m_variable :: string
  m_rest :: string

definition re_parse_rule_match :: "string \<Rightarrow> rule_match option" where
  "re_parse_rule_match s =
     (case dropWhile (\<lambda>c. c \<noteq> CHR ''<'') s of
        [] \<Rightarrow> None
      | lt # r \<Rightarrow>
          (case match_converter_group r of
             Some (conv, a, v, rest) \<Rightarrow>
               Some \<lparr>m_static = takeWhile (\<lambda>c. c \<noteq> CHR ''<'') s, m_converter = Some conv,
                     m_args = a, m_variable = v, m_rest = rest\<rparr>
           | None \<Rightarrow>
               (case match_variable r of
                  Some (v, rest) \<Rightarrow>
                    Some \<lparr>m_static = takeWhile (\<lambda>c. c \<noteq> CHR ''<'') s, m_converter = None,
                          m_args = None, m_variable = v, m_rest = rest\<rparr>
                | None \<Rightarrow> None)))"

lemma match_ident_shorter:
  "match_ident s = Some (v, r) \<Longrightarrow> length r < length s"
  by (auto simp: match_ident_def less_Suc_eq_le length_dropWhile_le split: list.splits if_splits)

lemma match_variable_shorter:
  "match_variable s = Some (v, r) \<Longrightarrow> length r < length s"
  by (auto simp: match_variable_def split: option.splits list.splits if_splits
      dest!: match_ident_shorter)

lemma match_args_tail_shorter:
  "match_args_tail s = Some (v, r) \<Longrightarrow> length r < length s"
  by (auto simp: match_args_tail_def split: list.splits if_splits dest!: match_variable_shorter)

lemma match_args_shorter:
  "match_args acc s = Some (a, v, r) \<Longrightarrow> length r < length s"
proof (induction s arbitrary: acc)
  case Nil
  then show ?case by simp
next
  case (Cons c cs)
  show ?case
  proof (cases "match_args_tail (c # cs)")
    case None
    with Cons.prems have "match_args (acc @ [c]) cs = Some (a, v, r)"
      by (simp split: if_splits)
    then have "length r < length cs" by (rule Cons.IH)
    then show ?thesis by simp
  next
    case (Some p)
    with Cons.prems have "match_args_tail (c # cs) = Some (v, r)"
      by (cases p) simp
    then show ?thesis by (rule match_args_tail_shorter)
  qed
qed

lemma match_converter_group_shorter:
  "match_converter_group s = Some (conv, a, v, r) \<Longrightarrow> length r < length s"
  by (auto simp: match_converter_group_def
      split: option.splits list.splits if_splits
      dest!: match_ident_shorter match_args_shorter match_variable_shorter)

lemma re_parse_rule_match_shorter:
  assumes "re_parse_rule_match s = Some m"
  shows "length (m_rest m) < length s"
proof -
  obtain lt r where r: "dropWhile (\<lambda>c. c \<noteq> CHR ''<'') s = lt # r"
    using assms by (auto simp: re_parse_rule_match_def split: list.splits)
  have "length (lt # r) \<le> length s"
    unfolding r [symmetric] by (rule length_dropWhile_le)
  then have le: "length r < length s" by simp
  from assms r have "length (m_rest m) < length r"
    by (auto simp: re_parse_rule_match_def split: option.splits
        dest!: match_converter_group_shorter match_variable_shorter)
  with le show ?thesis by simp
qed

text \<open>
  \<^verbatim>\<open>
  def parse_rule(rule):
      pos = 0
      end = len(rule)
      do_match = RE_PARSE_RULE.match
      used_names = set()
      while pos < end:
          m = do_match(rule, pos)
          if m is None:
              break
          data = m.groupdict()
          if data["static"]:
              yield None, None, data["static"]
          variable = data["variable"]
          converter = data["converter"] or "default"
          if variable in used_names:
              raise ValueError(f"variable name {variable!r} used twice.")
          used_names.add(variable)
          yield converter, data["args"] or None, variable
          pos = m.end()
      if pos < end:
          remaining = rule[pos:]
          if ">" in remaining or "<" in remaining:
              raise ValueError(f"malformed url rule: {rule!r}")
          yield None, None, remaining
  \<close>
  A generator: the caller receives the tuples one at a time, and an exception reaches it
  after the tuples yielded before. The model returns the tuples yielded and the
  exception that ended the generator, if any. The two \<^verbatim>\<open>ValueError\<close>s differ in their
  message only; the model keeps them apart.
\<close>

datatype error =
    VariableUsedTwice string
  | MalformedUrlRule string
  | TypeError string
  | KeyError string
  | AttributeError string

type_synonym segment = "string option \<times> string option \<times> string"

text \<open>\<^verbatim>\<open>x or d\<close> and \<^verbatim>\<open>x or None\<close> for an optional string \<^verbatim>\<open>x\<close>: \<^verbatim>\<open>None\<close> and the empty
  string are false.\<close>

definition or_str :: "string option \<Rightarrow> string \<Rightarrow> string" where
  "or_str x d = (case x of None \<Rightarrow> d | Some s \<Rightarrow> if s = [] then d else s)"

definition or_none :: "string option \<Rightarrow> string option" where
  "or_none x = (case x of None \<Rightarrow> None | Some s \<Rightarrow> if s = [] then None else Some s)"

function parse_rule_from :: "string \<Rightarrow> string set \<Rightarrow> string \<Rightarrow> segment list \<times> error option" where
  "parse_rule_from rule used_names s =
     (if s = [] then ([], None)
      else
        (case re_parse_rule_match s of
           None \<Rightarrow>
             if CHR ''>'' \<in> set s \<or> CHR ''<'' \<in> set s
             then ([], Some (MalformedUrlRule rule))
             else ([(None, None, s)], None)
         | Some m \<Rightarrow>
             (let static = (if m_static m \<noteq> [] then [(None, None, m_static m)] else [])
              in if m_variable m \<in> used_names
                 then (static, Some (VariableUsedTwice (m_variable m)))
                 else
                   (case parse_rule_from rule (insert (m_variable m) used_names) (m_rest m) of
                      (segs, e) \<Rightarrow>
                        (static @
                         (Some (or_str (m_converter m) ''default''),
                          or_none (m_args m), m_variable m) # segs, e)))))"
  by pat_completeness auto
termination
  by (relation "measure (\<lambda>(rule, used_names, s). length s)")
    (auto dest: re_parse_rule_match_shorter)

definition parse_rule :: "string \<Rightarrow> segment list \<times> error option" where
  "parse_rule rule = parse_rule_from rule {} rule"

text \<open>
  The placeholders of a template, to state what its parsing does: the variable names of
  the matches that the loop of \<^verbatim>\<open>parse_rule\<close> finds one after the other, from the start of
  the template to the first position where the expression does not match, with no regard
  to names that repeat. \<open>variables\<close> are the names in the tuples that the generator
  yields for placeholders (those with a converter).
\<close>

function placeholders_from :: "string \<Rightarrow> string list" where
  "placeholders_from s =
     (if s = [] then []
      else
        (case re_parse_rule_match s of
           None \<Rightarrow> []
         | Some m \<Rightarrow> m_variable m # placeholders_from (m_rest m)))"
  by pat_completeness auto
termination
  by (relation "measure length") (auto dest: re_parse_rule_match_shorter)

definition placeholders :: "string \<Rightarrow> string list" where
  "placeholders rule = placeholders_from rule"

definition variables :: "segment list \<Rightarrow> string list" where
  "variables segs = map (\<lambda>(converter, arguments, variable). variable)
                      (filter (\<lambda>(converter, arguments, variable). converter \<noteq> None) segs)"

section \<open>Converter schema table and path spec builder\<close>

text \<open>
  \<^verbatim>\<open>
  def get_converter_schema(converter: str, *args, **kwargs):
      if converter == "any":
          return {"type": "array", "items": {"type": "string", "enum": args}}
      elif converter == "int":
          return {
              "type": "integer",
              "format": "int32",
              **{
                  f"{prop}imum": kwargs[prop] for prop in ["min", "max"] if prop in kwargs
              },
          }
      elif converter == "float":
          return {"type": "number", "format": "float"}
      elif converter == "uuid":
          return {"type": "string", "format": "uuid"}
      elif converter == "path":
          return {"type": "string", "format": "path"}
      elif converter == "string":
          return {
              "type": "string",
              **{
                  prop: kwargs[prop]
                  for prop in ["length", "maxLength", "minLength"]
                  if prop in kwargs
              },
          }
      else:
          return {"type": "string"}
  \<close>
  \<open>dict_comprehension key props kwargs\<close> is
  \<^verbatim>\<open>{key(prop): kwargs[prop] for prop in props if prop in kwargs}\<close>.
\<close>

definition dict_comprehension :: "(string \<Rightarrow> string) \<Rightarrow> string list \<Rightarrow> dict \<Rightarrow> dict" where
  "dict_comprehension key props kwargs =
     fold (\<lambda>prop d.
            if dict_contains prop kwargs
            then dict_setitem d (key prop) (the (map_of kwargs prop))
            else d) props []"

definition get_converter_schema :: "string \<Rightarrow> pyval list \<Rightarrow> dict \<Rightarrow> pyval" where
  "get_converter_schema converter args kwargs =
     (if converter = ''any'' then
        PDict [(''type'', PStr ''array''),
               (''items'', PDict [(''type'', PStr ''string''), (''enum'', PTuple args)])]
      else if converter = ''int'' then
        PDict (dict_update [(''type'', PStr ''integer''), (''format'', PStr ''int32'')]
                 (dict_comprehension (\<lambda>prop. prop @ ''imum'') [''min'', ''max''] kwargs))
      else if converter = ''float'' then
        PDict [(''type'', PStr ''number''), (''format'', PStr ''float'')]
      else if converter = ''uuid'' then
        PDict [(''type'', PStr ''string''), (''format'', PStr ''uuid'')]
      else if converter = ''path'' then
        PDict [(''type'', PStr ''string''), (''format'', PStr ''path'')]
      else if converter = ''string'' then
        PDict (dict_update [(''type'', PStr ''string'')]
                 (dict_comprehension (\<lambda>prop. prop) [''length'', ''maxLength'', ''minLength'']
                    kwargs))
      else PDict [(''type'', PStr ''string'')])"

text \<open>
  \<^verbatim>\<open>
  def parse_url(path: str):
      subs = []
      parameters = []

      for converter, arguments, variable in parse_rule(path):
          if converter is None:
              subs.append(variable)
              continue
          subs.append(f"{{{variable}}}")

          args, kwargs = [], {}

          if arguments:
              args, kwargs = parse_converter_args(arguments)

          schema = get_converter_schema(converter, *args, **kwargs)

          parameters.append(
              {
                  "name": variable,
                  "in": "path",
                  "required": True,
                  "schema": schema,
              }
          )

      return "".join(subs), parameters
  \<close>
  \<^verbatim>\<open>parse_converter_args\<close> is imported from \<^verbatim>\<open>werkzeug.routing\<close>; it is a parameter of the
  model, a function from the argument text to the positional and the keyword arguments.
  The call \<^verbatim>\<open>get_converter_schema(converter, *args, **kwargs)\<close> raises \<^verbatim>\<open>TypeError\<close> when
  \<^verbatim>\<open>kwargs\<close> has the key \<^verbatim>\<open>converter\<close> (two values for the first parameter). The loop body
  runs for a tuple as soon as the generator yields it, so an exception of the loop body
  comes before an exception the generator raises later.
\<close>

type_synonym converter_args_parser = "string \<Rightarrow> pyval list \<times> dict"

fun parse_url_segments ::
  "converter_args_parser \<Rightarrow> segment list \<Rightarrow> string list \<Rightarrow> pyval list \<Rightarrow>
     error + (string list \<times> pyval list)" where
  "parse_url_segments pca [] subs parameters = Inr (subs, parameters)"
| "parse_url_segments pca ((converter, arguments, variable) # segs) subs parameters =
     (case converter of
        None \<Rightarrow> parse_url_segments pca segs (subs @ [variable]) parameters
      | Some conv \<Rightarrow>
          (case (case or_none arguments of None \<Rightarrow> ([], []) | Some a \<Rightarrow> pca a) of
             (args, kwargs) \<Rightarrow>
               if dict_contains ''converter'' kwargs then Inl (TypeError ''converter'')
               else
                 parse_url_segments pca segs (subs @ [''{'' @ variable @ ''}''])
                   (parameters @
                    [PDict [(''name'', PStr variable), (''in'', PStr ''path''),
                            (''required'', PBool True),
                            (''schema'', get_converter_schema conv args kwargs)]])))"

definition parse_url :: "converter_args_parser \<Rightarrow> string \<Rightarrow> error + (string \<times> pyval list)" where
  "parse_url pca path =
     (case parse_rule path of
        (segs, raised) \<Rightarrow>
          (case parse_url_segments pca segs [] [] of
             Inl e \<Rightarrow> Inl e
           | Inr (subs, parameters) \<Rightarrow>
               (case raised of
                  Some e \<Rightarrow> Inl e
                | None \<Rightarrow> Inr (concat subs, parameters))))"

section \<open>Handlers, routes and the OpenAPI object\<close>

text \<open>
  The metadata the module reads off a view function \<^verbatim>\<open>func\<close> with \<^verbatim>\<open>hasattr\<close> and
  \<^verbatim>\<open>getattr\<close>: an attribute that is absent is \<open>None\<close>. \<open>f_doc\<close> is the result of
  \<^verbatim>\<open>inspect.getdoc(func)\<close>. \<open>f_view_class\<close> is the attribute \<^verbatim>\<open>view_class\<close>: the class of a
  class-based view, given by the attributes of its methods (\<^verbatim>\<open>get\<close>, \<^verbatim>\<open>post\<close>, ...); the
  lookup is \<^verbatim>\<open>hasattr(view_class, method.lower())\<close>, which is false for every method name
  when \<^verbatim>\<open>view_class\<close> is \<^verbatim>\<open>None\<close>. A rule of the route table is given by \<^verbatim>\<open>str(rule)\<close>,
  \<^verbatim>\<open>rule.endpoint\<close> and \<^verbatim>\<open>rule.methods\<close>, a set, here in its iteration order.
\<close>

record view_func =
  vf_body :: "string option"
  vf_form :: "string option"
  vf_query :: "string option"

record handler =
  f_name :: string
  f_doc :: "string option"
  f_tags :: "string list option"
  f_exceptions :: "(string \<times> string) list option"
  f_response :: "string option"
  f_query :: "string option"
  f_body :: "string option"
  f_form :: "string option"
  f_openapi :: "pyval option"
  f_view_class :: "(string \<times> view_func) list option"

record url_rule =
  r_rule :: string
  r_endpoint :: string
  r_methods :: "string list"

text \<open>
  An \<^verbatim>\<open>OpenAPI\<close> instance with what it reaches: the route table and the view functions
  of \<^verbatim>\<open>self.app\<close>, the class attribute \<^verbatim>\<open>_models\<close>, its own class (\<^verbatim>\<open>self.__class__\<close>) and
  the attribute \<^verbatim>\<open>_spec\<close>. \<^verbatim>\<open>_spec\<close> holds \<^verbatim>\<open>None\<close> or a reference to a document; a
  reference is an index into \<open>o_heap\<close>, the documents built so far, so that two documents
  of equal content are still two objects.
\<close>

record openapi =
  o_rules :: "url_rule list"
  o_view_functions :: "(string \<times> handler) list"
  o_endpoint :: string
  o_url_prefix :: "string option"
  o_mode :: string
  o_openapi_version :: string
  o_info :: pyval
  o_extra_props :: dict
  o_models :: "(string \<times> dict) list"
  o_class :: string
  o_spec :: "nat option"
  o_heap :: "dict list"

text \<open>Truth value of a Python value, as \<^verbatim>\<open>if x\<close> and \<^verbatim>\<open>x and y\<close> test it.\<close>

fun truthy :: "pyval \<Rightarrow> bool" where
  "truthy PNone = False"
| "truthy (PBool b) = b"
| "truthy (PInt n) = (n \<noteq> 0)"
| "truthy (PStr s) = (s \<noteq> [])"
| "truthy (PClass c) = True"
| "truthy (PList xs) = (xs \<noteq> [])"
| "truthy (PTuple xs) = (xs \<noteq> [])"
| "truthy (PDict d) = (d \<noteq> [])"

text \<open>
  \<^verbatim>\<open>
  def _bypass(self, func) -> bool:
      if self.mode == "greedy":
          return False
      elif self.mode == "strict":
          if getattr(func, "_openapi", None) == self.__class__:
              return False
          return True
      else:
          decorator = getattr(func, "_openapi", None)
          if decorator and decorator != self.__class__:
              return True
          return False
  \<close>
  A class object is equal to itself only, so \<^verbatim>\<open>==\<close> and \<^verbatim>\<open>!=\<close> against \<^verbatim>\<open>self.__class__\<close>
  are equality and inequality of values.
\<close>

definition getattr_openapi :: "handler \<Rightarrow> pyval" where
  "getattr_openapi func = (case f_openapi func of None \<Rightarrow> PNone | Some d \<Rightarrow> d)"

definition bypass :: "openapi \<Rightarrow> handler \<Rightarrow> bool" where
  "bypass self func =
     (if o_mode self = ''greedy'' then False
      else if o_mode self = ''strict'' then
        (if getattr_openapi func = PClass (o_class self) then False else True)
      else
        (let decorator = getattr_openapi func
         in if truthy decorator \<and> decorator \<noteq> PClass (o_class self) then True else False))"

text \<open>\<^verbatim>\<open>str.lower\<close>, \<^verbatim>\<open>str.capitalize\<close> and \<^verbatim>\<open>str.startswith\<close>, on ASCII text.\<close>

definition lower_char :: "char \<Rightarrow> char" where
  "lower_char c =
     (case map_of (zip ''ABCDEFGHIJKLMNOPQRSTUVWXYZ'' ''abcdefghijklmnopqrstuvwxyz'') c of
        None \<Rightarrow> c | Some d \<Rightarrow> d)"

definition upper_char :: "char \<Rightarrow> char" where
  "upper_char c =
     (case map_of (zip ''abcdefghijklmnopqrstuvwxyz'' ''ABCDEFGHIJKLMNOPQRSTUVWXYZ'') c of
        None \<Rightarrow> c | Some d \<Rightarrow> d)"

definition lower :: "string \<Rightarrow> string" where
  "lower s = map lower_char s"

definition capitalize :: "string \<Rightarrow> string" where
  "capitalize s = (case s of [] \<Rightarrow> [] | c # cs \<Rightarrow> upper_char c # map lower_char cs)"

definition startswith :: "string \<Rightarrow> string \<Rightarrow> bool" where
  "startswith s p = (take (length p) s = p)"

text \<open>
  \<^verbatim>\<open>
  def get_summary_desc(func):
      doc = inspect.getdoc(func)
      if not doc:
          return None, None
      doc = doc.split("\n\n", 1)
      if len(doc) == 1:
          return doc[0], None
      return doc
  \<close>
  \<open>split_blank_line\<close> is \<^verbatim>\<open>doc.split("\n\n", 1)\<close> where the separator occurs: the text
  before its first occurrence and the text after it.
\<close>

fun split_blank_line :: "string \<Rightarrow> string \<Rightarrow> (string \<times> string) option" where
  "split_blank_line acc (c # d # cs) =
     (if c = CHR 0x0A \<and> d = CHR 0x0A then Some (acc, cs)
      else split_blank_line (acc @ [c]) (d # cs))"
| "split_blank_line acc cs = None"

definition get_summary_desc :: "handler \<Rightarrow> string option \<times> string option" where
  "get_summary_desc func =
     (case or_none (f_doc func) of
        None \<Rightarrow> (None, None)
      | Some doc \<Rightarrow>
          (case split_blank_line [] doc of
             None \<Rightarrow> (Some doc, None)
           | Some (summary, desc) \<Rightarrow> (Some summary, Some desc)))"

section \<open>Operation aggregator\<close>

text \<open>The body of the loop over \<^verbatim>\<open>rule.methods\<close> in \<^verbatim>\<open>generate_spec\<close>, lines 206 to 279:
  the dictionary \<^verbatim>\<open>spec\<close> of one method of one rule. \<open>schema_ref name\<close> is
  \<^verbatim>\<open>{"$ref": f"#/components/schemas/{name}"}\<close>.
  \<^verbatim>\<open>
  spec["responses"] = {}
  has_2xx = False
  if hasattr(func, "exceptions"):
      for code, msg in func.exceptions.items():
          if code.startswith("2"):
              has_2xx = True
          spec["responses"][code] = {
              "description": msg,
          }

  if hasattr(func, "response"):
      spec["responses"]["200"] = {
          "description": "Successful Response",
          "content": {
              "application/json": {
                  "schema": {
                      "$ref": f"#/components/schemas/{func.response}"
                  }
              }
          },
      }
  elif not has_2xx:
      spec["responses"]["200"] = {"description": "Successful Response"}

  if any(
      [hasattr(func, schema) for schema in ("query", "body", "form", "response")]
  ):
      spec["responses"]["400"] = {
          "description": "Validation Error",
      }
  \<close>
\<close>

definition schema_ref :: "string \<Rightarrow> pyval" where
  "schema_ref name = PDict [(''$ref'', PStr (''#/components/schemas/'' @ name))]"

definition json_content :: "string \<Rightarrow> pyval" where
  "json_content name = PDict [(''application/json'', PDict [(''schema'', schema_ref name)])]"

definition exceptions_loop :: "(string \<times> string) list \<Rightarrow> dict \<times> bool \<Rightarrow> dict \<times> bool" where
  "exceptions_loop exceptions start =
     fold (\<lambda>(code, msg) (responses, has_2xx).
            (dict_setitem responses code (PDict [(''description'', PStr msg)]),
             (if startswith code ''2'' then True else has_2xx)))
       exceptions start"

definition responses :: "handler \<Rightarrow> dict" where
  "responses func =
     (case (case f_exceptions func of
              None \<Rightarrow> ([], False)
            | Some exceptions \<Rightarrow> exceptions_loop exceptions ([], False)) of
        (r0, has_2xx) \<Rightarrow>
          (let r1 =
                 (case f_response func of
                    Some response \<Rightarrow>
                      dict_setitem r0 ''200''
                        (PDict [(''description'', PStr ''Successful Response''),
                                (''content'', json_content response)])
                  | None \<Rightarrow>
                      if \<not> has_2xx
                      then dict_setitem r0 ''200''
                             (PDict [(''description'', PStr ''Successful Response'')])
                      else r0)
           in if f_query func \<noteq> None \<or> f_body func \<noteq> None \<or> f_form func \<noteq> None \<or>
                 f_response func \<noteq> None
              then dict_setitem r1 ''400'' (PDict [(''description'', PStr ''Validation Error'')])
              else r1))"

text \<open>
  \<^verbatim>\<open>
  summary, desc = get_summary_desc(func)
  spec = {
      "summary": summary or func.__name__.capitalize(),
      "description": desc or "",
      "operationID": func.__name__ + "__" + method.lower(),
      "tags": getattr(func, "tags", []),
  }

  params = parameters[:]
  view_class = getattr(func, "view_class", None)

  if hasattr(view_class, method.lower()):
      view_func = getattr(view_class, method.lower())
      if hasattr(view_func, "body"):
          spec["requestBody"] = {"content": {"application/json": {
              "schema": {"$ref": f"#/components/schemas/{view_func.body}"}}}}

      if hasattr(view_func, "form"):
          spec["requestBody"] = {"content": {"application/json": {
              "schema": {"$ref": f"#/components/schemas/{view_func.form}"}}}}

      if hasattr(view_func, "query"):
          params.append({
              "name": view_func.query,
              "in": "query",
              "required": True,
              "schema": {"$ref": f"#/components/schemas/{view_func.query}"},
          })
  spec["parameters"] = params
  \<close>
\<close>

definition view_func_of :: "handler \<Rightarrow> string \<Rightarrow> view_func option" where
  "view_func_of func http_method =
     (case f_view_class func of
        None \<Rightarrow> None
      | Some view_class \<Rightarrow> map_of view_class (lower http_method))"

definition operation :: "handler \<Rightarrow> pyval list \<Rightarrow> string \<Rightarrow> dict" where
  "operation func parameters http_method =
     (case get_summary_desc func of
        (summary, desc) \<Rightarrow>
          (let spec0 =
                 [(''summary'', PStr (or_str summary (capitalize (f_name func)))),
                  (''description'', PStr (or_str desc [])),
                  (''operationID'', PStr (f_name func @ ''__'' @ lower http_method)),
                  (''tags'', PList (map PStr (case f_tags func of None \<Rightarrow> [] | Some ts \<Rightarrow> ts)))];
               view_func = view_func_of func http_method;
               spec1 =
                 (case view_func of
                    None \<Rightarrow> spec0
                  | Some vf \<Rightarrow>
                      (case vf_body vf of
                         None \<Rightarrow> spec0
                       | Some body \<Rightarrow>
                           dict_setitem spec0 ''requestBody''
                             (PDict [(''content'', json_content body)])));
               spec2 =
                 (case view_func of
                    None \<Rightarrow> spec1
                  | Some vf \<Rightarrow>
                      (case vf_form vf of
                         None \<Rightarrow> spec1
                       | Some form \<Rightarrow>
                           dict_setitem spec1 ''requestBody''
                             (PDict [(''content'', json_content form)])));
               params =
                 (case view_func of
                    None \<Rightarrow> parameters
                  | Some vf \<Rightarrow>
                      (case vf_query vf of
                         None \<Rightarrow> parameters
                       | Some query \<Rightarrow>
                           parameters @
                           [PDict [(''name'', PStr query), (''in'', PStr ''query''),
                                   (''required'', PBool True), (''schema'', schema_ref query)]]));
               spec3 = dict_setitem spec2 ''parameters'' (PList params)
           in dict_setitem spec3 ''responses'' (PDict (responses func))))"

section \<open>Document assembler\<close>

text \<open>
  \<^verbatim>\<open>
  def generate_spec(self):
      routes = {}
      tags = {}

      for rule in self.app.url_map.iter_rules():
          if str(rule).startswith(
              (f"{self.url_prefix or ''}{self.endpoint}", "/static")
          ):
              continue

          if "resources" in str(rule):
              pass

          func = self.app.view_functions[rule.endpoint]
          path, parameters = parse_url(str(rule))

          # bypass the function decorated by others
          if self._bypass(func):
              continue

          # multiple methods (with different func) may bond to the same path
          if path not in routes:
              routes[path] = {}

          for method in rule.methods:
              if method in ["HEAD", "OPTIONS"]:
                  continue

              if hasattr(func, "tags"):
                  for tag in func.tags:
                      if tag not in tags:
                          tags[tag] = {"name": tag}

              ...                      # spec: see operation
              routes[path][method.lower()] = spec
  \<close>
  \<open>methods_loop\<close> is the inner loop, \<open>rules_loop\<close> the outer one; both pass \<^verbatim>\<open>routes\<close> and
  \<^verbatim>\<open>tags\<close> along. A missing endpoint raises \<^verbatim>\<open>KeyError\<close>, and \<^verbatim>\<open>parse_url\<close> is called before
  the bypass test, so its exceptions end the loop for a bypassed handler too.
\<close>

definition the_dict :: "pyval option \<Rightarrow> dict" where
  "the_dict v = (case v of Some (PDict d) \<Rightarrow> d | _ \<Rightarrow> [])"

definition add_tags :: "handler \<Rightarrow> dict \<Rightarrow> dict" where
  "add_tags func tags =
     (case f_tags func of
        None \<Rightarrow> tags
      | Some ts \<Rightarrow>
          fold (\<lambda>tag t.
                 if dict_contains tag t then t
                 else dict_setitem t tag (PDict [(''name'', PStr tag)])) ts tags)"

fun methods_loop ::
  "handler \<Rightarrow> string \<Rightarrow> pyval list \<Rightarrow> string list \<Rightarrow> dict \<Rightarrow> dict \<Rightarrow> dict \<times> dict" where
  "methods_loop func path parameters [] routes tags = (routes, tags)"
| "methods_loop func path parameters (m # ms) routes tags =
     (if m \<in> set [''HEAD'', ''OPTIONS''] then methods_loop func path parameters ms routes tags
      else
        methods_loop func path parameters ms
          (dict_setitem routes path
             (PDict (dict_setitem (the_dict (map_of routes path)) (lower m)
                       (PDict (operation func parameters m)))))
          (add_tags func tags))"

fun rules_loop ::
  "converter_args_parser \<Rightarrow> openapi \<Rightarrow> url_rule list \<Rightarrow> dict \<Rightarrow> dict \<Rightarrow>
     error + (dict \<times> dict)" where
  "rules_loop pca self [] routes tags = Inr (routes, tags)"
| "rules_loop pca self (rule # rules) routes tags =
     (if startswith (r_rule rule) (or_str (o_url_prefix self) [] @ o_endpoint self) \<or>
         startswith (r_rule rule) ''/static''
      then rules_loop pca self rules routes tags
      else
        (case map_of (o_view_functions self) (r_endpoint rule) of
           None \<Rightarrow> Inl (KeyError (r_endpoint rule))
         | Some func \<Rightarrow>
             (case parse_url pca (r_rule rule) of
                Inl e \<Rightarrow> Inl e
              | Inr (path, parameters) \<Rightarrow>
                  if bypass self func then rules_loop pca self rules routes tags
                  else
                    (case methods_loop func path parameters (r_methods rule)
                            (if dict_contains path routes then routes
                             else dict_setitem routes path (PDict []))
                            tags of
                       (routes', tags') \<Rightarrow> rules_loop pca self rules routes' tags'))))"

text \<open>
  \<^verbatim>\<open>
      definitions = {}
      for _, schema in self._models.items():
          if "definitions" in schema:
              for key, value in schema["definitions"].items():
                  definitions[key] = value
              del schema["definitions"]
  \<close>
  The schemas are mutated in place: the function returns the exception raised, if any
  (\<^verbatim>\<open>schema["definitions"]\<close> that is no dictionary has no \<^verbatim>\<open>items\<close>), the definitions
  collected and \<^verbatim>\<open>_models\<close> as the loop leaves it.
\<close>

fun hoist_definitions ::
  "(string \<times> dict) list \<Rightarrow> dict \<Rightarrow> (string \<times> dict) list \<Rightarrow>
     error option \<times> dict \<times> (string \<times> dict) list" where
  "hoist_definitions [] definitions done = (None, definitions, done)"
| "hoist_definitions ((name, schema) # models) definitions done =
     (case map_of schema ''definitions'' of
        None \<Rightarrow> hoist_definitions models definitions (done @ [(name, schema)])
      | Some (PDict defs) \<Rightarrow>
          hoist_definitions models (dict_update definitions defs)
            (done @ [(name, AList.delete ''definitions'' schema)])
      | Some _ \<Rightarrow> (Some (AttributeError ''items''), definitions, done @ (name, schema) # models))"

text \<open>
  \<^verbatim>\<open>
      data = {
          "openapi": self.openapi_version,
          "info": self.info,
          "tags": list(tags.values()),
          "paths": {**routes},
          "components": {
              "schemas": {name: schema for name, schema in self._models.items()},
          },
          "definitions": definitions,
      }

      merge_dicts(data, self.extra_props)

      return data
  \<close>
  \<^verbatim>\<open>data\<close> holds the objects \<^verbatim>\<open>self.info\<close> and the schemas of \<^verbatim>\<open>_models\<close> themselves, and
  \<^verbatim>\<open>merge_dicts\<close> mutates a dictionary of \<^verbatim>\<open>data\<close> that it merges with a dictionary of
  \<^verbatim>\<open>extra_props\<close>. \<open>merged_info\<close> and \<open>merged_models\<close> are \<^verbatim>\<open>self.info\<close> and \<^verbatim>\<open>_models\<close> after
  the merge; \<^verbatim>\<open>self.extra_props\<close> is left as \<^verbatim>\<open>merge_dicts\<close> leaves its second argument.
  \<open>generate_spec_data\<close> returns \<^verbatim>\<open>data\<close> or the exception raised, and the instance after
  the call; \<open>generate_spec\<close> returns a reference to the new object \<^verbatim>\<open>data\<close>.
\<close>

definition merged_info :: "pyval \<Rightarrow> dict \<Rightarrow> pyval" where
  "merged_info info extra_props =
     (case info of
        PDict i \<Rightarrow>
          (case map_of extra_props ''info'' of
             Some (PDict i2) \<Rightarrow> PDict (fst (merge_dicts i i2))
           | _ \<Rightarrow> info)
      | _ \<Rightarrow> info)"

definition merged_models :: "(string \<times> dict) list \<Rightarrow> dict \<Rightarrow> (string \<times> dict) list" where
  "merged_models models extra_props =
     (case map_of extra_props ''components'' of
        Some (PDict components) \<Rightarrow>
          (case map_of components ''schemas'' of
             Some (PDict schemas) \<Rightarrow>
               map (\<lambda>(name, schema).
                     case map_of schemas name of
                       Some (PDict schema2) \<Rightarrow> (name, fst (merge_dicts schema schema2))
                     | _ \<Rightarrow> (name, schema)) models
           | _ \<Rightarrow> models)
      | _ \<Rightarrow> models)"

definition generate_spec_data ::
  "converter_args_parser \<Rightarrow> openapi \<Rightarrow> (error + dict) \<times> openapi" where
  "generate_spec_data pca self =
     (case rules_loop pca self (o_rules self) [] [] of
        Inl e \<Rightarrow> (Inl e, self)
      | Inr (routes, tags) \<Rightarrow>
          (case hoist_definitions (o_models self) [] [] of
             (Some e, definitions, models) \<Rightarrow> (Inl e, self\<lparr>o_models := models\<rparr>)
           | (None, definitions, models) \<Rightarrow>
               (case merge_dicts
                       [(''openapi'', PStr (o_openapi_version self)),
                        (''info'', o_info self),
                        (''tags'', PList (map snd tags)),
                        (''paths'', PDict routes),
                        (''components'',
                           PDict [(''schemas'',
                                   PDict (map (\<lambda>(name, schema). (name, PDict schema)) models))]),
                        (''definitions'', PDict definitions)]
                       (o_extra_props self) of
                  (data, extra_props') \<Rightarrow>
                    (Inr data,
                     self\<lparr>o_info := merged_info (o_info self) (o_extra_props self),
                          o_models := merged_models models (o_extra_props self),
                          o_extra_props := extra_props'\<rparr>))))"

definition generate_spec :: "converter_args_parser \<Rightarrow> openapi \<Rightarrow> (error + nat) \<times> openapi" where
  "generate_spec pca self =
     (case generate_spec_data pca self of
        (Inl e, self') \<Rightarrow> (Inl e, self')
      | (Inr data, self') \<Rightarrow>
          (Inr (length (o_heap self')), self'\<lparr>o_heap := o_heap self' @ [data]\<rparr>))"

text \<open>
  \<^verbatim>\<open>
  @property
  def spec(self):
      if self._spec is None:
          self._spec = self.generate_spec()
      return self._spec
  \<close>
\<close>

definition spec :: "converter_args_parser \<Rightarrow> openapi \<Rightarrow> (error + nat) \<times> openapi" where
  "spec pca self =
     (case o_spec self of
        None \<Rightarrow>
          (case generate_spec pca self of
             (Inl e, self') \<Rightarrow> (Inl e, self')
           | (Inr ref, self') \<Rightarrow> (Inr ref, self'\<lparr>o_spec := Some ref\<rparr>))
      | Some ref \<Rightarrow> (Inr ref, self))"

text \<open>
  What the module and its host do to an instance once it exists: read \<^verbatim>\<open>spec\<close>; register
  a model (\<^verbatim>\<open>OpenAPI.add_model\<close>: \<^verbatim>\<open>cls._models[model.__name__] = model.schema()\<close>); assign
  \<^verbatim>\<open>extra_props\<close> (\<^verbatim>\<open>add_openapi_spec\<close>: \<^verbatim>\<open>openapi.extra_props = extra_props\<close>); and, outside
  the module, change the application's route table and view functions. Nothing but
  \<^verbatim>\<open>__init__\<close> and the \<^verbatim>\<open>spec\<close> property assigns \<^verbatim>\<open>_spec\<close>.
\<close>

datatype event =
    ReadSpec
  | AddModel string dict
  | SetExtraProps dict
  | SetRoutes "url_rule list" "(string \<times> handler) list"

fun step :: "converter_args_parser \<Rightarrow> event \<Rightarrow> openapi \<Rightarrow> openapi" where
  "step pca ReadSpec self = snd (spec pca self)"
| "step pca (AddModel name schema) self =
     self\<lparr>o_models := AList.update name schema (o_models self)\<rparr>"
| "step pca (SetExtraProps extra_props) self = self\<lparr>o_extra_props := extra_props\<rparr>"
| "step pca (SetRoutes rules view_functions) self =
     self\<lparr>o_rules := rules, o_view_functions := view_functions\<rparr>"

definition run :: "converter_args_parser \<Rightarrow> event list \<Rightarrow> openapi \<Rightarrow> openapi" where
  "run pca events self = fold (step pca) events self"

section \<open>Properties of the recursive merge\<close>


lemma merge_items_snd:
  "snd (merge_items items d1 d2) = filter (\<lambda>(k, v). k \<notin> fst ` set items) d2"
proof (induction items arbitrary: d1 d2)
  case Nil
  then show ?case by simp
next
  case (Cons kv items)
  obtain k v where kv: "kv = (k, v)" by (cases kv)
  show ?case
  proof (cases "dict_contains k d2")
    case True
    have "snd (merge_items (kv # items) d1 d2) = filter (\<lambda>(k, v). k \<notin> fst ` set items) (AList.delete k d2)"
      using True kv Cons.IH by (simp add: dict_pop_def split: pyval.splits)
    then show ?thesis using kv by (auto simp: AList.delete_eq intro!: filter_cong)
  next
    case False
    then have "\<forall>x \<in> set d2. fst x \<noteq> k"
      by (auto simp: dict_contains_def map_of_eq_None_iff)
    hence "filter (\<lambda>(k', v). k' \<notin> fst ` set (kv # items)) d2 = filter (\<lambda>(k, v). k \<notin> fst ` set items) d2"
      using kv by (auto intro!: filter_cong)
    then show ?thesis using False kv Cons.IH by simp
  qed
qed

lemma merge_items_keys:
  "fst ` set items \<subseteq> set (dict_keys d1) \<Longrightarrow> dict_keys (fst (merge_items items d1 d2)) = dict_keys d1"
proof (induction items arbitrary: d1 d2)
  case Nil
  then show ?case by simp
next
  case (Cons kv items)
  obtain k v where kv: "kv = (k, v)" by (cases kv)
  have upd: "dict_keys (dict_setitem d1 k w) = dict_keys d1" for w
    using Cons.prems kv by (simp add: dict_keys_def dict_setitem_def AList.update_keys)
  have sub: "fst ` set items \<subseteq> set (dict_keys (dict_setitem d1 k w))" for w
    using Cons.prems upd by simp
  have sub': "fst ` set items \<subseteq> set (dict_keys d1)" using Cons.prems by simp
  show ?case
    using kv Cons.IH [OF sub] Cons.IH [OF sub'] upd
    by (simp add: dict_pop_def split: pyval.splits)
qed

lemma dict_update_keys:
  "distinct (dict_keys d2) \<Longrightarrow> set (dict_keys d1) \<inter> set (dict_keys d2) = {} \<Longrightarrow>
   dict_keys (dict_update d1 d2) = dict_keys d1 @ dict_keys d2"
  unfolding dict_update_def
proof (induction d2 arbitrary: d1)
  case Nil
  then show ?case by (simp add: dict_keys_def)
next
  case (Cons kv d2)
  obtain k v where kv: "kv = (k, v)" by (cases kv)
  have k: "dict_keys (dict_setitem d1 k v) = dict_keys d1 @ [k]"
    using Cons.prems kv by (auto simp: dict_keys_def dict_setitem_def AList.update_keys)
  have "dict_keys (fold (\<lambda>(k, v) d. dict_setitem d k v) d2 (dict_setitem d1 k v)) =
        dict_keys (dict_setitem d1 k v) @ dict_keys d2"
    using Cons.prems kv k by (intro Cons.IH) (auto simp: dict_keys_def)
  then show ?case using kv k by (simp add: dict_keys_def)
qed

lemma merge_dicts_keys:
  assumes "distinct (dict_keys d2)"
  shows "dict_keys (fst (merge_dicts d1 d2)) =
         dict_keys d1 @ filter (\<lambda>k. k \<notin> set (dict_keys d1)) (dict_keys d2)"
proof -
  obtain d1' d2' where m: "merge_items d1 d1 d2 = (d1', d2')" by (cases "merge_items d1 d1 d2")
  have d2': "d2' = filter (\<lambda>(k, v). k \<notin> fst ` set d1) d2"
    using merge_items_snd [of d1 d1 d2] m by simp
  have d1': "dict_keys d1' = dict_keys d1"
    using merge_items_keys [of d1 d1 d2] m by (simp add: dict_keys_def)
  have keys2: "dict_keys d2' = filter (\<lambda>k. k \<notin> set (dict_keys d1)) (dict_keys d2)"
    unfolding d2' dict_keys_def by (induction d2) (auto simp: image_iff, force+)
  have "distinct (dict_keys d2')" using assms by (simp add: keys2)
  moreover have "set (dict_keys d1') \<inter> set (dict_keys d2') = {}"
    by (auto simp: keys2 d1')
  ultimately have "dict_keys (dict_update d1' d2') = dict_keys d1' @ dict_keys d2'"
    by (rule dict_update_keys)
  then show ?thesis using m d1' keys2 by (simp add: merge_dicts.simps)
qed

lemma merge_items_map_of:
  "map_of (fst (merge_items items d1 d2)) k =
     (case map_of items k of
        None \<Rightarrow> map_of d1 k
      | Some v \<Rightarrow>
          (case map_of d2 k of
             None \<Rightarrow> map_of d1 k
           | Some v2 \<Rightarrow>
               Some (case v of
                       PDict m \<Rightarrow> (case v2 of PDict m2 \<Rightarrow> PDict (fst (merge_dicts m m2)) | _ \<Rightarrow> v2)
                     | _ \<Rightarrow> v2)))"
proof (induction items arbitrary: d1 d2)
  case Nil
  then show ?case by simp
next
  case (Cons kv items)
  obtain k' v where kv: "kv = (k', v)" by (cases kv)
  show ?case
  proof (cases "dict_contains k' d2")
    case True
    then obtain v2 where v2: "map_of d2 k' = Some v2" by (auto simp: dict_contains_def)
    show ?thesis using True kv v2 Cons.IH
      by (auto simp: dict_pop_def dict_setitem_def AList.update_conv' AList.delete_conv' split: pyval.splits option.splits)
  next
    case False
    then show ?thesis using kv Cons.IH
      by (auto simp: dict_contains_def split: option.splits)
  qed
qed

lemma dict_update_map_of:
  "distinct (dict_keys d2) \<Longrightarrow>
   map_of (dict_update d1 d2) k = (case map_of d2 k of None \<Rightarrow> map_of d1 k | Some v \<Rightarrow> Some v)"
  unfolding dict_update_def dict_keys_def
proof (induction d2 arbitrary: d1)
  case Nil
  then show ?case by simp
next
  case (Cons kv d2)
  obtain k' v' where kv: "kv = (k', v')" by (cases kv)
  from Cons.prems kv have "map_of d2 k' = None"
    by (simp add: map_of_eq_None_iff)
  with Cons kv show ?case
    by (auto simp: dict_setitem_def AList.update_conv' split: option.splits)
qed

lemma merge_dicts_map_of:
  assumes "distinct (dict_keys d2)"
  shows "map_of (fst (merge_dicts d1 d2)) k =
     (case map_of d1 k of
        None \<Rightarrow> map_of d2 k
      | Some v \<Rightarrow>
          (case map_of d2 k of
             None \<Rightarrow> Some v
           | Some v2 \<Rightarrow>
               Some (case v of
                       PDict m \<Rightarrow> (case v2 of PDict m2 \<Rightarrow> PDict (fst (merge_dicts m m2)) | _ \<Rightarrow> v2)
                     | _ \<Rightarrow> v2)))"
proof -
  obtain d1' d2' where m: "merge_items d1 d1 d2 = (d1', d2')" by (cases "merge_items d1 d1 d2")
  have d2': "d2' = filter (\<lambda>(k, v). k \<notin> fst ` set d1) d2"
    using merge_items_snd [of d1 d1 d2] m by simp
  have dist: "distinct (dict_keys d2')"
    using assms unfolding d2' dict_keys_def by (simp add: distinct_map_filter)
  have look2: "map_of d2' k = (if k \<in> fst ` set d1 then None else map_of d2 k)"
    unfolding d2' by (induction d2) (fastforce simp: image_iff)+
  have dom1: "(k \<in> fst ` set d1) = (map_of d1 k \<noteq> None)"
    by (simp add: map_of_eq_None_iff)
  have d1': "map_of d1' k =
     (case map_of d1 k of
        None \<Rightarrow> map_of d1 k
      | Some v \<Rightarrow>
          (case map_of d2 k of
             None \<Rightarrow> map_of d1 k
           | Some v2 \<Rightarrow>
               Some (case v of
                       PDict m \<Rightarrow> (case v2 of PDict m2 \<Rightarrow> PDict (fst (merge_dicts m m2)) | _ \<Rightarrow> v2)
                     | _ \<Rightarrow> v2)))"
    using merge_items_map_of [of d1 d1 d2 k] m by simp
  have "map_of (fst (merge_dicts d1 d2)) k = (case map_of d2' k of None \<Rightarrow> map_of d1' k | Some v \<Rightarrow> Some v)"
    using m dict_update_map_of [OF dist] by (simp add: merge_dicts.simps)
  then show ?thesis
    unfolding look2 dom1 d1' by (auto split: option.splits)
qed

text \<open>
  Claim C2. For every base dictionary \<open>d1\<close> and every overlay dictionary \<open>d2\<close> (whose keys,
  as those of any Python dictionary, are distinct), \<^verbatim>\<open>merge_dicts(d1, d2)\<close> returns \<open>d1\<close>
  mutated so that: at a key of both whose two values are dictionaries, it holds their
  recursive merge; at a key of both where one of the values is no dictionary, it holds
  the overlay's value; a key of the overlay only is added with the overlay's value; a
  key of the base only keeps its value; the base's keys stay in place and the new keys
  follow in the overlay's order. In particular
  \<^verbatim>\<open>merge_dicts({"c": {"a": 1}}, {"c": {"b": 2}})\<close> is \<^verbatim>\<open>{"c": {"a": 1, "b": 2}}\<close> and
  \<^verbatim>\<open>merge_dicts({"c": 1}, {"c": {"b": 2}})\<close> is \<^verbatim>\<open>{"c": {"b": 2}}\<close>.
\<close>

theorem merge_dicts_overlay:
  assumes "distinct (dict_keys d2)"
  shows
    "(\<forall>k m m2. map_of d1 k = Some (PDict m) \<and> map_of d2 k = Some (PDict m2) \<longrightarrow>
        map_of (fst (merge_dicts d1 d2)) k = Some (PDict (fst (merge_dicts m m2)))) \<and>
     (\<forall>k v v2. map_of d1 k = Some v \<and> map_of d2 k = Some v2 \<and> \<not> (is_dict v \<and> is_dict v2) \<longrightarrow>
        map_of (fst (merge_dicts d1 d2)) k = Some v2) \<and>
     (\<forall>k. map_of d1 k = None \<longrightarrow> map_of (fst (merge_dicts d1 d2)) k = map_of d2 k) \<and>
     (\<forall>k. map_of d2 k = None \<longrightarrow> map_of (fst (merge_dicts d1 d2)) k = map_of d1 k) \<and>
     dict_keys (fst (merge_dicts d1 d2)) =
       dict_keys d1 @ filter (\<lambda>k. k \<notin> set (dict_keys d1)) (dict_keys d2) \<and>
     fst (merge_dicts [(''c'', PDict [(''a'', PInt 1)])] [(''c'', PDict [(''b'', PInt 2)])]) =
       [(''c'', PDict [(''a'', PInt 1), (''b'', PInt 2)])] \<and>
     fst (merge_dicts [(''c'', PInt 1)] [(''c'', PDict [(''b'', PInt 2)])]) =
       [(''c'', PDict [(''b'', PInt 2)])]"
proof -
  have ex1: "fst (merge_dicts [(''c'', PDict [(''a'', PInt 1)])] [(''c'', PDict [(''b'', PInt 2)])]) =
       [(''c'', PDict [(''a'', PInt 1), (''b'', PInt 2)])]"
    by (simp add: merge_dicts.simps dict_contains_def dict_pop_def dict_setitem_def dict_update_def
        AList.delete_eq)
  have ex2: "fst (merge_dicts [(''c'', PInt 1)] [(''c'', PDict [(''b'', PInt 2)])]) =
       [(''c'', PDict [(''b'', PInt 2)])]"
    by (simp add: merge_dicts.simps dict_contains_def dict_pop_def dict_setitem_def dict_update_def
        AList.delete_eq)
  have both: "\<forall>k m m2. map_of d1 k = Some (PDict m) \<and> map_of d2 k = Some (PDict m2) \<longrightarrow>
        map_of (fst (merge_dicts d1 d2)) k = Some (PDict (fst (merge_dicts m m2)))"
    by (simp add: merge_dicts_map_of [OF assms])
  have repl: "\<forall>k v v2. map_of d1 k = Some v \<and> map_of d2 k = Some v2 \<and> \<not> (is_dict v \<and> is_dict v2) \<longrightarrow>
        map_of (fst (merge_dicts d1 d2)) k = Some v2"
    by (auto simp: merge_dicts_map_of [OF assms] is_dict_def split: pyval.splits)
  have only2: "\<forall>k. map_of d1 k = None \<longrightarrow> map_of (fst (merge_dicts d1 d2)) k = map_of d2 k"
    by (simp add: merge_dicts_map_of [OF assms])
  have only1: "\<forall>k. map_of d2 k = None \<longrightarrow> map_of (fst (merge_dicts d1 d2)) k = map_of d1 k"
    by (simp add: merge_dicts_map_of [OF assms] split: option.splits)
  show ?thesis
    using both repl only2 only1 merge_dicts_keys [OF assms] ex1 ex2 by blast
qed

text \<open>The theorem at a base and an overlay that share the key \<^verbatim>\<open>c\<close>.\<close>

theorem merge_dicts_overlay_witness:
  "distinct (dict_keys [(''c'', PDict [(''b'', PInt 2)]), (''e'', PInt 5)]) \<and>
   map_of (fst (merge_dicts [(''c'', PDict [(''a'', PInt 1)]), (''d'', PInt 7)]
                  [(''c'', PDict [(''b'', PInt 2)]), (''e'', PInt 5)])) ''c'' =
     Some (PDict (fst (merge_dicts [(''a'', PInt 1)] [(''b'', PInt 2)]))) \<and>
   map_of (fst (merge_dicts [(''c'', PDict [(''a'', PInt 1)]), (''d'', PInt 7)]
                  [(''c'', PDict [(''b'', PInt 2)]), (''e'', PInt 5)])) ''e'' = Some (PInt 5) \<and>
   map_of (fst (merge_dicts [(''c'', PDict [(''a'', PInt 1)]), (''d'', PInt 7)]
                  [(''c'', PDict [(''b'', PInt 2)]), (''e'', PInt 5)])) ''d'' = Some (PInt 7) \<and>
   dict_keys (fst (merge_dicts [(''c'', PDict [(''a'', PInt 1)]), (''d'', PInt 7)]
                  [(''c'', PDict [(''b'', PInt 2)]), (''e'', PInt 5)])) = [''c'', ''d'', ''e'']"
proof -
  have d: "distinct (dict_keys [(''c'', PDict [(''b'', PInt 2)]), (''e'', PInt 5)])"
    by (simp add: dict_keys_def)
  show ?thesis
    using d merge_dicts_overlay [OF d, of "[(''c'', PDict [(''a'', PInt 1)]), (''d'', PInt 7)]"]
    by (simp add: dict_keys_def)
qed

lemma filter_not_in_keys:
  "k \<in> set (map fst d1) \<Longrightarrow>
   k \<notin> set (map fst (filter (\<lambda>(k, v). k \<notin> set (map fst d1)) d2))"
  by force

lemma filter_keys_id:
  "(filter (\<lambda>(k, v). k \<notin> set (map fst d1)) d2 = d2) =
   (set (map fst d1) \<inter> set (map fst d2) = {})"
proof -
  have "(filter (\<lambda>(k, v). k \<notin> set (map fst d1)) d2 = d2) =
        (\<forall>x\<in>set d2. fst x \<notin> set (map fst d1))"
    by (simp add: filter_id_conv case_prod_beta)
  also have "\<dots> = (\<forall>k\<in>set (map fst d2). k \<notin> set (map fst d1))"
    by simp
  also have "\<dots> = (set (map fst d1) \<inter> set (map fst d2) = {})"
    by blast
  finally show ?thesis .
qed

lemma merge_dicts_snd:
  "snd (merge_dicts d1 d2) = filter (\<lambda>(k, v). k \<notin> set (dict_keys d1)) d2"
  using merge_items_snd [of d1 d1 d2]
  by (cases "merge_items d1 d1 d2") (simp add: merge_dicts.simps dict_keys_def)

text \<open>
  Claim C9. \<^verbatim>\<open>merge_dicts(d1, d2)\<close> mutates its overlay \<open>d2\<close> too: after the call the
  overlay holds its entries whose key is no key of the base, in their order, so every key
  of both is gone from it. The same holds one level down: where both hold a dictionary at
  a key, the base's value there is the result of the recursive call on the two, and that
  call leaves the overlay's sub-dictionary without the keys of the base's sub-dictionary.
  The overlay is unchanged exactly when it shares no key with the base.
\<close>

theorem merge_dicts_pops_overlay:
  "snd (merge_dicts d1 d2) = filter (\<lambda>(k, v). k \<notin> set (dict_keys d1)) d2 \<and>
   (\<forall>k. k \<in> set (dict_keys d1) \<longrightarrow> k \<notin> set (dict_keys (snd (merge_dicts d1 d2)))) \<and>
   (\<forall>k m m2. map_of d1 k = Some (PDict m) \<and> map_of d2 k = Some (PDict m2) \<and>
       distinct (dict_keys d2) \<longrightarrow>
       map_of (fst (merge_dicts d1 d2)) k = Some (PDict (fst (merge_dicts m m2))) \<and>
       snd (merge_dicts m m2) = filter (\<lambda>(k, v). k \<notin> set (dict_keys m)) m2) \<and>
   ((snd (merge_dicts d1 d2) = d2) = (set (dict_keys d1) \<inter> set (dict_keys d2) = {}))"
proof -
  have top: "snd (merge_dicts d1 d2) = filter (\<lambda>(k, v). k \<notin> set (dict_keys d1)) d2"
    by (rule merge_dicts_snd)
  have gone: "\<forall>k. k \<in> set (dict_keys d1) \<longrightarrow> k \<notin> set (dict_keys (snd (merge_dicts d1 d2)))"
    unfolding top dict_keys_def by (intro allI impI) (rule filter_not_in_keys)
  have nested: "\<forall>k m m2. map_of d1 k = Some (PDict m) \<and> map_of d2 k = Some (PDict m2) \<and>
       distinct (dict_keys d2) \<longrightarrow>
       map_of (fst (merge_dicts d1 d2)) k = Some (PDict (fst (merge_dicts m m2))) \<and>
       snd (merge_dicts m m2) = filter (\<lambda>(k, v). k \<notin> set (dict_keys m)) m2"
    by (simp add: merge_dicts_map_of merge_dicts_snd)
  have same: "(snd (merge_dicts d1 d2) = d2) = (set (dict_keys d1) \<inter> set (dict_keys d2) = {})"
    unfolding top dict_keys_def by (rule filter_keys_id)
  show ?thesis using top gone nested same by blast
qed

text \<open>The theorem at an overlay that shares the key \<^verbatim>\<open>c\<close> with the base, and
  the key \<^verbatim>\<open>a\<close> below it.\<close>

theorem merge_dicts_pops_overlay_witness:
  "snd (merge_dicts [(''c'', PDict [(''a'', PInt 1)]), (''d'', PInt 7)]
          [(''e'', PInt 5), (''c'', PDict [(''a'', PInt 3), (''b'', PInt 2)])]) =
     [(''e'', PInt 5)] \<and>
   ''c'' \<notin> set (dict_keys (snd (merge_dicts [(''c'', PDict [(''a'', PInt 1)]), (''d'', PInt 7)]
          [(''e'', PInt 5), (''c'', PDict [(''a'', PInt 3), (''b'', PInt 2)])]))) \<and>
   map_of (fst (merge_dicts [(''c'', PDict [(''a'', PInt 1)]), (''d'', PInt 7)]
          [(''e'', PInt 5), (''c'', PDict [(''a'', PInt 3), (''b'', PInt 2)])])) ''c'' =
     Some (PDict (fst (merge_dicts [(''a'', PInt 1)] [(''a'', PInt 3), (''b'', PInt 2)]))) \<and>
   snd (merge_dicts [(''a'', PInt 1)] [(''a'', PInt 3), (''b'', PInt 2)]) = [(''b'', PInt 2)] \<and>
   snd (merge_dicts [(''c'', PDict [(''a'', PInt 1)]), (''d'', PInt 7)]
          [(''e'', PInt 5), (''c'', PDict [(''a'', PInt 3), (''b'', PInt 2)])]) \<noteq>
     [(''e'', PInt 5), (''c'', PDict [(''a'', PInt 3), (''b'', PInt 2)])]"
proof -
  note t = merge_dicts_pops_overlay [of "[(''c'', PDict [(''a'', PInt 1)]), (''d'', PInt 7)]"
          "[(''e'', PInt 5), (''c'', PDict [(''a'', PInt 3), (''b'', PInt 2)])]"]
  from t have top: "snd (merge_dicts [(''c'', PDict [(''a'', PInt 1)]), (''d'', PInt 7)]
          [(''e'', PInt 5), (''c'', PDict [(''a'', PInt 3), (''b'', PInt 2)])]) = [(''e'', PInt 5)]"
    by (simp add: dict_keys_def)
  from t have nested: "map_of [(''c'', PDict [(''a'', PInt 1)]), (''d'', PInt 7)] ''c'' = Some (PDict m) \<and>
      map_of [(''e'', PInt 5), (''c'', PDict [(''a'', PInt 3), (''b'', PInt 2)])] ''c'' = Some (PDict m2) \<and>
      distinct (dict_keys [(''e'', PInt 5), (''c'', PDict [(''a'', PInt 3), (''b'', PInt 2)])]) \<longrightarrow>
      map_of (fst (merge_dicts [(''c'', PDict [(''a'', PInt 1)]), (''d'', PInt 7)]
          [(''e'', PInt 5), (''c'', PDict [(''a'', PInt 3), (''b'', PInt 2)])])) ''c'' =
        Some (PDict (fst (merge_dicts m m2))) \<and>
      snd (merge_dicts m m2) = filter (\<lambda>(k, v). k \<notin> set (dict_keys m)) m2" for m m2
    by blast
  from nested [of "[(''a'', PInt 1)]" "[(''a'', PInt 3), (''b'', PInt 2)]"]
  have sub: "map_of (fst (merge_dicts [(''c'', PDict [(''a'', PInt 1)]), (''d'', PInt 7)]
          [(''e'', PInt 5), (''c'', PDict [(''a'', PInt 3), (''b'', PInt 2)])])) ''c'' =
        Some (PDict (fst (merge_dicts [(''a'', PInt 1)] [(''a'', PInt 3), (''b'', PInt 2)]))) \<and>
      snd (merge_dicts [(''a'', PInt 1)] [(''a'', PInt 3), (''b'', PInt 2)]) = [(''b'', PInt 2)]"
    by (simp add: dict_keys_def)
  show ?thesis using top sub by (simp add: dict_keys_def)
qed

end
